theory Spec2Isabelle
  imports Main
begin

section \<open>The declared schema of \<^verbatim>\<open>src/v2/rest_api/orm.py\<close>\<close>

text \<open>
  The module declares a stack of declarative classes. Each class body is a list of
  \<^verbatim>\<open>Column(...)\<close> declarations; a subclass has the columns of its bases followed by
  its own. A column is modelled by a record holding what its declaration says: the
  Python attribute it is bound to, the column name given as first argument, the type,
  and the keyword arguments \<^verbatim>\<open>primary_key\<close>, \<^verbatim>\<open>nullable\<close>, \<^verbatim>\<open>default\<close>, \<^verbatim>\<open>onupdate\<close>
  and the \<^verbatim>\<open>ForeignKey\<close> target. The \<^verbatim>\<open>relationship(...)\<close> attributes are not
  columns and store nothing; they are left out.
\<close>

subsection \<open>Cell values, column types, defaults\<close>

text \<open>Payloads of the cells that the development reads. Float payloads are not
  represented: no property below reads a Float cell.\<close>

datatype sqlval = Null | IntV int | StrV string | BoolV bool | TimeV int

datatype sqltype =
    Integer
  | String nat
  | DateTime
  | Boolean
  | Float
  | Text nat
  | IPAddressType
  | EncryptedType sqltype
  | ChoiceType "(string \<times> string) list"
  | NullType

text \<open>The callables and scalars that occur as \<^verbatim>\<open>default=\<close> or \<^verbatim>\<open>onupdate=\<close>:
  \<^verbatim>\<open>datetime.datetime.now\<close>, \<^verbatim>\<open>get_random_salt\<close> and the literal \<^verbatim>\<open>0\<close>.\<close>

datatype generator = Now | RandomSalt | Scalar sqlval

record column =
  attr :: string
  cname :: string
  ctype :: sqltype
  primary_key :: bool
  nullable :: bool
  dflt :: "generator option"
  onupdate :: "generator option"
  foreign_key :: "string option"

text \<open>\<^verbatim>\<open>Column(name, type)\<close> with no keyword argument: nullable, no default, no key.\<close>

definition Column :: "string \<Rightarrow> string \<Rightarrow> sqltype \<Rightarrow> column" where
  "Column a n t =
     \<lparr>attr = a, cname = n, ctype = t, primary_key = False, nullable = True,
      dflt = None, onupdate = None, foreign_key = None\<rparr>"

definition ForeignKey :: "string \<Rightarrow> column \<Rightarrow> column" where
  "ForeignKey target c = c\<lparr>foreign_key := Some target\<rparr>"

subsection \<open>The classes\<close>

definition IDClass :: "column list" where
  "IDClass = [(Column ''id'' ''id'' Integer)\<lparr>primary_key := True, nullable := False\<rparr>]"

definition TimeBaseClass_own :: "column list" where
  "TimeBaseClass_own =
     [(Column ''date_created'' ''date_created'' DateTime)\<lparr>dflt := Some Now\<rparr>,
      (Column ''date_updated'' ''date_updated'' DateTime)
         \<lparr>dflt := Some Now, onupdate := Some Now\<rparr>]"

definition TimeBaseClass :: "column list" where
  "TimeBaseClass = IDClass @ TimeBaseClass_own"

definition OwnedClass_own :: "column list" where
  "OwnedClass_own =
     [ForeignKey ''users.id'' (Column ''user_id'' ''user_id'' Integer)]"

definition OwnedClass :: "column list" where
  "OwnedClass = TimeBaseClass @ OwnedClass_own"

definition TestBases_own :: "column list" where
  "TestBases_own =
     [ForeignKey ''ClassifierTests.id''
        (Column ''classifier_test_id'' ''classifier_test_id'' Integer),
      ForeignKey ''PredictionTests.id''
        (Column ''prediction_test_id'' ''prediction_test_id'' Integer)]"

definition TestBases :: "column list" where
  "TestBases = TimeBaseClass @ TestBases_own"

definition AddDeleteTrackClass_own :: "column list" where
  "AddDeleteTrackClass_own =
     [(Column ''date_deleted'' ''date_deleted'' DateTime)\<lparr>dflt := Some Now\<rparr>,
      Column ''deleted'' ''deleted'' Boolean,
      ForeignKey ''Users.id'' (Column ''created_user_id'' ''created_user_id'' Integer),
      ForeignKey ''Users.id'' (Column ''deleted_user_id'' ''deleted_user_id'' Integer)]"

definition AddDeleteTrackClass :: "column list" where
  "AddDeleteTrackClass = TimeBaseClass @ AddDeleteTrackClass_own"

definition Users_own :: "column list" where
  "Users_own =
     [(Column ''username'' ''username'' (String 256))\<lparr>nullable := False\<rparr>,
      Column ''secret_key'' ''secret_key'' (EncryptedType (String 256)),
      (Column ''secret_key_salt'' ''secret_key_salt'' (String 32))
         \<lparr>dflt := Some RandomSalt\<rparr>]"

definition Users :: "column list" where
  "Users = AddDeleteTrackClass @ Users_own"

definition Workers_own :: "column list" where
  "Workers_own =
     [Column ''ip_address'' ''ip_address'' IPAddressType,
      Column ''last_check_in'' ''last_check_in'' DateTime,
      (Column ''tasks_complete'' ''tasks_complete'' Integer)
         \<lparr>dflt := Some (Scalar (IntV 0))\<rparr>,
      ForeignKey ''Tasks.id'' (Column ''task_id'' ''task_id'' Integer)]"

definition Workers :: "column list" where
  "Workers = OwnedClass @ Workers_own"

definition OAuthAuth_own :: "column list" where
  "OAuthAuth_own = [Column ''token'' ''token'' (String 256)]"

definition OAuthAuth :: "column list" where
  "OAuthAuth = TimeBaseClass @ OAuthAuth_own"

definition OAuthAccess_own :: "column list" where
  "OAuthAccess_own =
     [Column ''date_expires'' ''date_expires'' DateTime,
      Column ''grants'' ''grants'' Integer,
      Column ''token'' ''token'' (String 256)]"

definition OAuthAccess :: "column list" where
  "OAuthAccess = OwnedClass @ OAuthAccess_own"

definition PerformanceComparison_own :: "column list" where
  "PerformanceComparison_own =
     [Column ''actual_movement'' ''actual_movement'' Float,
      Column ''delta'' ''delta'' Float,
      Column ''directionally_same'' ''directionally_same'' Boolean,
      Column ''neural_network_rec'' ''neural_network_rec'' Float,
      Column ''percent_buy'' ''percent_buy'' Float,
      Column ''percent_hold'' ''percent_hold'' Float,
      Column ''percent_sell'' ''percent_sell'' Float,
      Column ''price_time_range_start'' ''price_time_range_start'' DateTime,
      Column ''price_time_range_end'' ''price_time_range_end'' DateTime,
      Column ''recommendation_count'' ''recommendation_count'' Integer,
      Column ''tr_time_range_start'' ''tr_time_range_start'' DateTime,
      Column ''tr_time_range_end'' ''tr_time_range_end'' DateTime,
      Column ''weighted_average_neural_rec'' ''weighted_average_neural_rec'' Float,
      ForeignKey ''TradeRecommendations.id''
        (Column ''recommendation_id'' ''recommendation_id'' Integer),
      ForeignKey ''SymbolPairs.id''
        (Column ''symbol_pair_id'' ''symbol_pair_id'' Integer)]"

text \<open>\<^verbatim>\<open>class PerformanceComparison(AddDeleteTrackClass, OwnedClass)\<close>: both bases share
  \<^verbatim>\<open>TimeBaseClass\<close>, whose columns occur once; the columns stand in the order in which
  the file declares them.\<close>

definition PerformanceComparison :: "column list" where
  "PerformanceComparison =
     TimeBaseClass @ OwnedClass_own @ AddDeleteTrackClass_own @ PerformanceComparison_own"

definition TradeSites_own :: "column list" where
  "TradeSites_own =
     [Column ''api_uri'' ''api_uri'' (String 256),
      Column ''name'' ''name'' (String 256),
      Column ''uri'' ''uri'' (String 256)]"

definition TradeSites :: "column list" where
  "TradeSites = TimeBaseClass @ TradeSites_own"

definition Tasks_own :: "column list" where
  "Tasks_own =
     [Column ''date_last_failure'' ''date_last_failure'' DateTime,
      Column ''date_last_success'' ''date_last_success'' DateTime,
      Column ''date_last_ran'' ''date_last_ran'' DateTime]"

text \<open>\<^verbatim>\<open>class Tasks(TestBases, OwnedClass)\<close>.\<close>

definition Tasks :: "column list" where
  "Tasks = TimeBaseClass @ OwnedClass_own @ TestBases_own @ Tasks_own"

definition TaskResults_own :: "column list" where
  "TaskResults_own =
     [Column ''average_diff'' ''average_diff'' NullType,
      Column ''output'' ''output'' (Text 65535),
      Column ''percent_correct'' ''percent_correct'' Integer,
      Column ''prediction_size'' ''prediction_size'' Integer,
      Column ''profit_loss_float'' ''profit_loss_float'' Float,
      Column ''profit_loss_int'' ''profit_loss_int'' Integer,
      Column ''run_time'' ''run_time'' Float,
      Column ''score'' ''score'' Integer,
      ForeignKey ''Workers.id'' (Column ''worker_id'' ''worker_id'' Integer),
      ForeignKey ''Tasks.id'' (Column ''task_id'' ''task_id'' Integer)]"

definition TaskResults :: "column list" where
  "TaskResults = TestBases @ TaskResults_own"

definition TEST_TYPES :: "(string \<times> string) list" where
  "TEST_TYPES = [(''mock'', ''Mock''), (''live'', ''Live'')]"

text \<open>In \<^verbatim>\<open>BaseTest\<close> the attributes \<^verbatim>\<open>site_id\<close> and \<^verbatim>\<open>symbol_pair_id\<close> are declared as
  \<^verbatim>\<open>Column('task_id', ...)\<close> and \<^verbatim>\<open>Column('worker_id', ...)\<close>.\<close>

definition BaseTest_own :: "column list" where
  "BaseTest_own =
     [Column ''test_type'' ''test_type'' (ChoiceType TEST_TYPES),
      Column ''data_set_inputs'' ''data_set_inputs'' Integer,
      Column ''granularity'' ''granularity'' Integer,
      Column ''minutes_back'' ''minutes_back'' Integer,
      Column ''training_set_length'' ''training_set_length'' Integer,
      ForeignKey ''TradeSites.id'' (Column ''site_id'' ''task_id'' Integer),
      ForeignKey ''SymbolPairs.id'' (Column ''symbol_pair_id'' ''worker_id'' Integer)]"

definition BaseTest :: "column list" where
  "BaseTest = AddDeleteTrackClass @ BaseTest_own"

definition PREDICTION_TYPES :: "(string \<times> string) list" where
  "PREDICTION_TYPES = []"

text \<open>Line 377 of the source reads \<^verbatim>\<open>Column('prediction_type': ChoiceType(PREDICTION_TYPES))\<close>,
  with a colon where the argument separator belongs; the declaration is read with the
  separator.\<close>

definition PredictionTest_own :: "column list" where
  "PredictionTest_own =
     [Column ''prediction_type'' ''prediction_type'' (ChoiceType PREDICTION_TYPES),
      Column ''bias'' ''bias'' Boolean,
      Column ''recurrent'' ''recurrent'' Boolean,
      Column ''weight_delay'' ''weight_delay'' Float,
      Column ''hidden_neurons'' ''hidden_neurons'' Integer,
      Column ''epochs'' ''epochs'' Integer,
      Column ''momentum'' ''momentum'' Float,
      Column ''learning_rate'' ''learning_rate'' Float]"

definition PredictionTest :: "column list" where
  "PredictionTest = BaseTest @ PredictionTest_own"

text \<open>The classes that carry a \<^verbatim>\<open>__tablename__\<close>, with that name.\<close>

definition tables :: "(string \<times> column list) list" where
  "tables =
     [(''Users'', Users), (''Workers'', Workers), (''OAuthAuth'', OAuthAuth),
      (''OAuthAccess'', OAuthAccess), (''PerformanceComparison'', PerformanceComparison),
      (''TradeSites'', TradeSites), (''Tasks'', Tasks), (''TaskResults'', TaskResults),
      (''PredictionTest'', PredictionTest)]"

text \<open>Every class below \<^verbatim>\<open>TimeBaseClass\<close>, and every class below
  \<^verbatim>\<open>AddDeleteTrackClass\<close>.\<close>

definition timestamped :: "column list list" where
  "timestamped =
     [TimeBaseClass, OwnedClass, TestBases, AddDeleteTrackClass, Users, Workers, OAuthAuth,
      OAuthAccess, PerformanceComparison, TradeSites, Tasks, TaskResults, BaseTest,
      PredictionTest]"

definition audit_deletable :: "column list list" where
  "audit_deletable = [AddDeleteTrackClass, Users, PerformanceComparison, BaseTest, PredictionTest]"

subsection \<open>Foreign-key targets\<close>

text \<open>A \<^verbatim>\<open>ForeignKey('T.c')\<close> names table \<^verbatim>\<open>T\<close> and column \<^verbatim>\<open>c\<close>. The target table
  is looked up by its exact name among the declared tables.\<close>

definition fk_table :: "string \<Rightarrow> string" where
  "fk_table target = takeWhile (\<lambda>ch. ch \<noteq> CHR ''.'') target"

definition resolve_fk :: "string \<Rightarrow> column list option" where
  "resolve_fk target = map_of tables (fk_table target)"

definition column_of :: "column list \<Rightarrow> string \<Rightarrow> column option" where
  "column_of cols a = find (\<lambda>c. attr c = a) cols"

section \<open>What the declarations do at a write\<close>

subsection \<open>The environment: clock and random source\<close>

text \<open>
  \<^verbatim>\<open>datetime.datetime.now\<close> and \<^verbatim>\<open>random.SystemRandom\<close> read the outside world. The
  environment holds the reading that the n-th call of the clock returns and the n-th
  draw of the random source, with the number of calls made so far. No order is imposed
  on the clock readings.
\<close>

record env =
  clock :: "nat \<Rightarrow> int"
  entropy :: "nat \<Rightarrow> nat"
  now_calls :: nat
  rand_calls :: nat

definition now :: "env \<Rightarrow> int \<times> env" where
  "now e = (clock e (now_calls e), e\<lparr>now_calls := Suc (now_calls e)\<rparr>)"

definition ascii_letters :: string where
  "ascii_letters = ''abcdefghijklmnopqrstuvwxyzABCDEFGHIJKLMNOPQRSTUVWXYZ''"

definition digits :: string where
  "digits = ''0123456789''"

text \<open>\<^verbatim>\<open>string.punctuation\<close>: the 32 ASCII punctuation characters, codes 33 to 47,
  58 to 64, 91 to 96 and 123 to 126.\<close>

definition punctuation :: string where
  "punctuation =
     [CHR 0x21, CHR 0x22, CHR 0x23, CHR 0x24, CHR 0x25, CHR 0x26, CHR 0x27, CHR 0x28,
      CHR 0x29, CHR 0x2A, CHR 0x2B, CHR 0x2C, CHR 0x2D, CHR 0x2E, CHR 0x2F,
      CHR 0x3A, CHR 0x3B, CHR 0x3C, CHR 0x3D, CHR 0x3E, CHR 0x3F, CHR 0x40,
      CHR 0x5B, CHR 0x5C, CHR 0x5D, CHR 0x5E, CHR 0x5F, CHR 0x60,
      CHR 0x7B, CHR 0x7C, CHR 0x7D, CHR 0x7E]"

definition alphabet :: string where
  "alphabet = ascii_letters @ digits @ punctuation"

text \<open>\<^verbatim>\<open>SystemRandom().choice(seq)\<close> picks the element at an index below
  \<^verbatim>\<open>len(seq)\<close> computed from one draw.\<close>

definition choice :: "string \<Rightarrow> env \<Rightarrow> char \<times> env" where
  "choice seq e =
     (seq ! (entropy e (rand_calls e) mod length seq), e\<lparr>rand_calls := Suc (rand_calls e)\<rparr>)"

fun join_choices :: "nat \<Rightarrow> env \<Rightarrow> string \<times> env" where
  "join_choices 0 e = ([], e)"
| "join_choices (Suc n) e =
     (let (ch, e1) = choice alphabet e; (s, e2) = join_choices n e1 in (ch # s, e2))"

definition get_random_salt :: "env \<Rightarrow> string \<times> env" where
  "get_random_salt e = join_choices 32 e"

fun eval_generator :: "generator \<Rightarrow> env \<Rightarrow> sqlval \<times> env" where
  "eval_generator Now e = (let (t, e1) = now e in (TimeV t, e1))"
| "eval_generator RandomSalt e = (let (s, e1) = get_random_salt e in (StrV s, e1))"
| "eval_generator (Scalar v) e = (v, e)"

subsection \<open>Rows and the checks at a write\<close>

text \<open>A row holds one cell per attribute, in column order; the values a write supplies
  are an association list from attribute to value.\<close>

type_synonym row = "(string \<times> sqlval) list"

definition cell :: "row \<Rightarrow> string \<Rightarrow> sqlval" where
  "cell r a = (case map_of r a of Some v \<Rightarrow> v | None \<Rightarrow> Null)"

datatype error = NotNullViolation string | EnumConstraintViolation string

text \<open>Modelled from the spec: the write-time validation of \<^verbatim>\<open>ChoiceType\<close>. The type
  comes from the package \<^verbatim>\<open>sqlalchemy_utils\<close>, which is not among the sources; the spec
  says that an enumerated-kind field must take a value from its declared set and that
  an unrecognized value is rejected at write time. The declared set is the list of codes
  of the choices passed to \<^verbatim>\<open>ChoiceType\<close>.\<close>

definition choice_accepts :: "(string \<times> string) list \<Rightarrow> sqlval \<Rightarrow> bool" where
  "choice_accepts choices v = (case v of StrV s \<Rightarrow> s \<in> set (map fst choices) | _ \<Rightarrow> False)"

text \<open>A null cell is refused by a column declared \<^verbatim>\<open>nullable=False\<close> (the primary key
  is filled in by the storage engine and is exempt); a non-null cell of a choice column
  is checked against the declared choices.\<close>

definition check_value :: "column \<Rightarrow> sqlval \<Rightarrow> error option" where
  "check_value c v =
     (if v = Null then
        (if nullable c \<or> primary_key c then None else Some (NotNullViolation (cname c)))
      else
        (case ctype c of
           ChoiceType choices \<Rightarrow>
             if choice_accepts choices v then None
             else Some (EnumConstraintViolation (cname c))
         | _ \<Rightarrow> None))"

fun check_row :: "column list \<Rightarrow> row \<Rightarrow> error option" where
  "check_row [] r = None"
| "check_row (c # cs) r =
     (case check_value c (cell r (attr c)) of
        Some err \<Rightarrow> Some err
      | None \<Rightarrow> check_row cs r)"

subsection \<open>INSERT: supplied value, else \<^verbatim>\<open>default\<close>, else NULL\<close>

text \<open>
  \<^verbatim>\<open>Column(..., default=f)\<close> has the ORM call \<^verbatim>\<open>f\<close> when an INSERT supplies no value
  for the column, and \<^verbatim>\<open>onupdate=f\<close> when an UPDATE assigns none; a column with neither
  gets NULL at insert and keeps its stored value at update. The callables are called
  once per column, in the order of the columns. The key that the storage engine assigns
  to \<^verbatim>\<open>id\<close> and its enforcement of foreign keys are outside the source and are not
  modelled; a supplied value for an attribute that the class does not declare is not
  looked at.
\<close>

definition insert_value :: "column \<Rightarrow> row \<Rightarrow> env \<Rightarrow> sqlval \<times> env" where
  "insert_value c vals e =
     (case map_of vals (attr c) of
        Some v \<Rightarrow> (v, e)
      | None \<Rightarrow> (case dflt c of Some g \<Rightarrow> eval_generator g e | None \<Rightarrow> (Null, e)))"

fun insert_cols :: "column list \<Rightarrow> row \<Rightarrow> env \<Rightarrow> row \<times> env" where
  "insert_cols [] vals e = ([], e)"
| "insert_cols (c # cs) vals e =
     (let (v, e1) = insert_value c vals e; (r, e2) = insert_cols cs vals e1
      in ((attr c, v) # r, e2))"

definition insert_row :: "column list \<Rightarrow> row \<Rightarrow> env \<Rightarrow> (error + row) \<times> env" where
  "insert_row cols vals e =
     (let (r, e1) = insert_cols cols vals e
      in (case check_row cols r of Some err \<Rightarrow> (Inl err, e1) | None \<Rightarrow> (Inr r, e1)))"

text \<open>Adding a row to a table: the table keeps its rows when the write is refused.\<close>

definition add_row :: "column list \<Rightarrow> row \<Rightarrow> env \<times> row list \<Rightarrow> error option \<times> env \<times> row list" where
  "add_row cols vals st =
     (case insert_row cols vals (fst st) of
        (Inl err, e1) \<Rightarrow> (Some err, e1, snd st)
      | (Inr r, e1) \<Rightarrow> (None, e1, snd st @ [r]))"

subsection \<open>UPDATE: supplied value, else \<^verbatim>\<open>onupdate\<close>, else the stored value\<close>

definition update_value :: "column \<Rightarrow> row \<Rightarrow> row \<Rightarrow> env \<Rightarrow> sqlval \<times> env" where
  "update_value c vals old e =
     (case map_of vals (attr c) of
        Some v \<Rightarrow> (v, e)
      | None \<Rightarrow> (case onupdate c of Some g \<Rightarrow> eval_generator g e | None \<Rightarrow> (cell old (attr c), e)))"

fun update_cols :: "column list \<Rightarrow> row \<Rightarrow> row \<Rightarrow> env \<Rightarrow> row \<times> env" where
  "update_cols [] vals old e = ([], e)"
| "update_cols (c # cs) vals old e =
     (let (v, e1) = update_value c vals old e; (r, e2) = update_cols cs vals old e1
      in ((attr c, v) # r, e2))"

text \<open>No statement is issued when nothing was assigned.\<close>

definition update_row :: "column list \<Rightarrow> row \<Rightarrow> row \<Rightarrow> env \<Rightarrow> (error + row) \<times> env" where
  "update_row cols vals old e =
     (if vals = [] then (Inr old, e)
      else
        (let (r, e1) = update_cols cols vals old e
         in (case check_row cols r of Some err \<Rightarrow> (Inl err, e1) | None \<Rightarrow> (Inr r, e1))))"

text \<open>A sequence of updates of one row; it stops at the first refused write.\<close>

fun run_updates :: "column list \<Rightarrow> row list \<Rightarrow> row \<Rightarrow> env \<Rightarrow> (error + row) \<times> env" where
  "run_updates cols [] r e = (Inr r, e)"
| "run_updates cols (u # us) r e =
     (case update_row cols u r e of
        (Inl err, e1) \<Rightarrow> (Inl err, e1)
      | (Inr r1, e1) \<Rightarrow> run_updates cols us r1 e1)"

text \<open>The source declares no method on any class (every \<^verbatim>\<open>Class Functions\<close> section is
  empty), so a soft delete is the one update that assigns the three deletion
  attributes.\<close>

definition soft_delete :: "column list \<Rightarrow> int \<Rightarrow> int \<Rightarrow> row \<Rightarrow> env \<Rightarrow> (error + row) \<times> env" where
  "soft_delete cols byUser atTime r e =
     update_row cols
       [(''deleted'', BoolV True), (''date_deleted'', TimeV atTime),
        (''deleted_user_id'', IntV byUser)] r e"

text \<open>A sample environment for concrete runs: the n-th clock reading is n, the n-th
  draw is n.\<close>

definition env0 :: env where
  "env0 = \<lparr>clock = (\<lambda>n. int n), entropy = (\<lambda>n. n), now_calls = 0, rand_calls = 0\<rparr>"

text \<open>The update time of a row is not before its creation time.\<close>

definition created_le_updated :: "row \<Rightarrow> bool" where
  "created_le_updated r =
     (case (cell r ''date_created'', cell r ''date_updated'') of
        (TimeV c, TimeV u) \<Rightarrow> c \<le> u
      | _ \<Rightarrow> False)"

section \<open>Properties of the declared schema\<close>

lemmas class_defs = IDClass_def TimeBaseClass_own_def TimeBaseClass_def OwnedClass_own_def OwnedClass_def
  TestBases_own_def TestBases_def AddDeleteTrackClass_own_def AddDeleteTrackClass_def Users_own_def Users_def
  Workers_own_def Workers_def OAuthAuth_own_def OAuthAuth_def OAuthAccess_own_def OAuthAccess_def
  PerformanceComparison_own_def PerformanceComparison_def TradeSites_own_def TradeSites_def Tasks_own_def
  Tasks_def TaskResults_own_def TaskResults_def BaseTest_own_def BaseTest_def PredictionTest_own_def
  PredictionTest_def Column_def ForeignKey_def

lemma join_choices_env:
  "snd (join_choices n e) = e\<lparr>rand_calls := rand_calls e + n\<rparr>"
  by (induction n arbitrary: e) (simp_all add: choice_def split_def Let_def)

lemma join_choices_fst:
  "fst (join_choices n e) =
     map (\<lambda>i. alphabet ! (entropy e (rand_calls e + i) mod length alphabet)) [0..<n]"
proof (induction n arbitrary: e)
  case 0
  show ?case by simp
next
  case (Suc n)
  show ?case
    unfolding map_upt_Suc
    by (simp add: choice_def split_def Let_def Suc)
qed

lemma eval_generator_clock: "clock (snd (eval_generator g e)) = clock e"
  by (cases g) (simp_all add: now_def get_random_salt_def join_choices_env split_def)


lemma eval_generator_now_calls: "now_calls e \<le> now_calls (snd (eval_generator g e))"
  by (cases g) (simp_all add: now_def get_random_salt_def join_choices_env split_def)

lemma insert_value_clock: "clock (snd (insert_value c vals e)) = clock e"
  by (simp add: insert_value_def eval_generator_clock split: option.splits)

lemma insert_value_now_calls: "now_calls e \<le> now_calls (snd (insert_value c vals e))"
  by (simp add: insert_value_def eval_generator_now_calls split: option.splits)

lemma insert_cols_clock: "clock (snd (insert_cols cols vals e)) = clock e"
  by (induction cols arbitrary: e) (simp_all add: split_def Let_def insert_value_clock)

lemma insert_cols_now_calls: "now_calls e \<le> now_calls (snd (insert_cols cols vals e))"
proof (induction cols arbitrary: e)
  case Nil
  show ?case by simp
next
  case (Cons c cs)
  have "now_calls e \<le> now_calls (snd (insert_value c vals e))"
    by (rule insert_value_now_calls)
  also have "\<dots> \<le> now_calls (snd (insert_cols cs vals (snd (insert_value c vals e))))"
    by (rule Cons.IH)
  finally show ?case by (simp add: split_def Let_def)
qed

lemma cell_Cons: "cell ((a, v) # r) b = (if a = b then v else cell r b)"
  by (simp add: cell_def)

text \<open>The cell of an attribute after an insert that does not supply it.\<close>

lemma cell_insert_cols_now:
  assumes "map_of vals a = None"
    and "\<exists>c\<in>set cols. attr c = a"
    and "\<forall>c\<in>set cols. attr c = a \<longrightarrow> dflt c = Some Now"
  shows "\<exists>k. now_calls e \<le> k \<and> k < now_calls (snd (insert_cols cols vals e))
            \<and> cell (fst (insert_cols cols vals e)) a = TimeV (clock e k)"
  using assms(2,3)
proof (induction cols arbitrary: e)
  case Nil
  then show ?case by simp
next
  case (Cons c cs)
  show ?case
  proof (cases "attr c = a")
    case True
    then have d: "dflt c = Some Now" using Cons.prems(2) by simp
    have v: "insert_value c vals e = (TimeV (clock e (now_calls e)), e\<lparr>now_calls := Suc (now_calls e)\<rparr>)"
      using True d assms(1) by (simp add: insert_value_def now_def)
    have "Suc (now_calls e) \<le> now_calls (snd (insert_cols cs vals (e\<lparr>now_calls := Suc (now_calls e)\<rparr>)))"
      using insert_cols_now_calls [of "e\<lparr>now_calls := Suc (now_calls e)\<rparr>" cs vals] by simp
    then show ?thesis
      using True v by (intro exI [of _ "now_calls e"]) (simp add: split_def Let_def cell_Cons)
  next
    case False
    let ?e1 = "snd (insert_value c vals e)"
    have ex: "\<exists>c\<in>set cs. attr c = a" using Cons.prems(1) False by auto
    have al: "\<forall>c\<in>set cs. attr c = a \<longrightarrow> dflt c = Some Now" using Cons.prems(2) by simp
    from Cons.IH [OF ex al, of ?e1] obtain k where
      k: "now_calls ?e1 \<le> k" "k < now_calls (snd (insert_cols cs vals ?e1))"
         "cell (fst (insert_cols cs vals ?e1)) a = TimeV (clock ?e1 k)"
      by blast
    have "now_calls e \<le> k" using k(1) insert_value_now_calls [of e c vals] by simp
    then show ?thesis
      using k False by (intro exI [of _ k]) (simp add: split_def Let_def cell_Cons insert_value_clock)
  qed
qed

lemma cell_insert_cols_null:
  assumes "map_of vals a = None"
    and "\<forall>c\<in>set cols. attr c = a \<longrightarrow> dflt c = None"
  shows "cell (fst (insert_cols cols vals e)) a = Null"
  using assms(2)
proof (induction cols arbitrary: e)
  case Nil
  show ?case by (simp add: cell_def)
next
  case (Cons c cs)
  then show ?case
    using assms(1) by (auto simp: split_def Let_def cell_Cons insert_value_def)
qed

lemma cell_insert_cols_supplied:
  assumes "map_of vals a = Some v" and "\<exists>c\<in>set cols. attr c = a"
  shows "cell (fst (insert_cols cols vals e)) a = v"
  using assms(2)
proof (induction cols arbitrary: e)
  case Nil
  then show ?case by simp
next
  case (Cons c cs)
  then show ?case
    using assms(1) by (auto simp: split_def Let_def cell_Cons insert_value_def)
qed

lemma insert_row_Inr:
  "insert_row cols vals e = (Inr r, e1) \<Longrightarrow>
     r = fst (insert_cols cols vals e) \<and> e1 = snd (insert_cols cols vals e) \<and> check_row cols r = None"
  by (auto simp: insert_row_def split_def Let_def split: option.splits)

subsection \<open>Concrete runs\<close>

lemma salt_env0_fst:
  "fst (get_random_salt (env0\<lparr>now_calls := k\<rparr>)) = ''abcdefghijklmnopqrstuvwxyzABCDEF''"
  unfolding get_random_salt_def join_choices_fst
  by (simp add: env0_def alphabet_def ascii_letters_def digits_def punctuation_def upt_rec)

lemma salt_env0:
  "get_random_salt (env0\<lparr>now_calls := k\<rparr>) =
     (''abcdefghijklmnopqrstuvwxyzABCDEF'', env0\<lparr>now_calls := k, rand_calls := 32\<rparr>)"
  using salt_env0_fst [of k] join_choices_env [of 32 "env0\<lparr>now_calls := k\<rparr>"]
  by (simp add: prod_eq_iff get_random_salt_def env0_def)

lemma insert_alice:
  "insert_row Users [(''username'', StrV ''alice'')] env0 =
     (Inr [(''id'', Null), (''date_created'', TimeV 0), (''date_updated'', TimeV 1),
           (''date_deleted'', TimeV 2), (''deleted'', Null), (''created_user_id'', Null),
           (''deleted_user_id'', Null), (''username'', StrV ''alice''), (''secret_key'', Null),
           (''secret_key_salt'', StrV ''abcdefghijklmnopqrstuvwxyzABCDEF'')],
      env0\<lparr>now_calls := 3, rand_calls := 32\<rparr>)"
proof -
  have s: "get_random_salt (env0\<lparr>now_calls := Suc (Suc (Suc 0))\<rparr>) =
     (''abcdefghijklmnopqrstuvwxyzABCDEF'',
      env0\<lparr>now_calls := Suc (Suc (Suc 0)), rand_calls := 32\<rparr>)"
    by (rule salt_env0)
  show ?thesis
    using s
    by (simp add: insert_row_def class_defs insert_value_def now_def
        check_value_def cell_def split_def Let_def env0_def)
qed

subsection \<open>Column names and foreign-key targets\<close>

text \<open>
  Claim C6. In \<^verbatim>\<open>BaseTest\<close> the attribute holding the trade-site reference is stored
  under the column name \<^verbatim>\<open>task_id\<close> and the attribute holding the symbol-pair reference
  under the column name \<^verbatim>\<open>worker_id\<close>, although their foreign keys target
  \<^verbatim>\<open>TradeSites.id\<close> and \<^verbatim>\<open>SymbolPairs.id\<close>; \<^verbatim>\<open>TaskResults\<close> uses the same two column
  names for its references to \<^verbatim>\<open>Tasks.id\<close> and \<^verbatim>\<open>Workers.id\<close>.
\<close>

theorem basetest_fk_column_names:
  "map (\<lambda>a. map_option (\<lambda>c. (cname c, foreign_key c)) (column_of BaseTest a))
       [''site_id'', ''symbol_pair_id''] =
     [Some (''task_id'', Some ''TradeSites.id''), Some (''worker_id'', Some ''SymbolPairs.id'')]
   \<and> map (\<lambda>a. map_option (\<lambda>c. (cname c, foreign_key c)) (column_of TaskResults a))
       [''task_id'', ''worker_id''] =
     [Some (''task_id'', Some ''Tasks.id''), Some (''worker_id'', Some ''Workers.id'')]
   \<and> map fk_table [''TradeSites.id'', ''SymbolPairs.id''] = [''TradeSites'', ''SymbolPairs'']"
  by (simp add: column_of_def class_defs fk_table_def)

text \<open>
  Claim C10. The foreign key of \<^verbatim>\<open>OwnedClass.user_id\<close> targets \<^verbatim>\<open>users.id\<close> and those of
  \<^verbatim>\<open>TestBases.classifier_test_id\<close> and \<^verbatim>\<open>TestBases.prediction_test_id\<close> target
  \<^verbatim>\<open>ClassifierTests.id\<close> and \<^verbatim>\<open>PredictionTests.id\<close>. None of the three table names is
  the name of a declared table (the user table is \<^verbatim>\<open>Users\<close>, the prediction-test table
  is \<^verbatim>\<open>PredictionTest\<close>), so none of these references resolves, whereas \<^verbatim>\<open>Users.id\<close>
  does.
\<close>

theorem fk_targets_not_declared:
  "map (\<lambda>a. map_option foreign_key (column_of OwnedClass a)) [''user_id''] =
     [Some (Some ''users.id'')]
   \<and> map (\<lambda>a. map_option foreign_key (column_of TestBases a))
        [''classifier_test_id'', ''prediction_test_id''] =
      [Some (Some ''ClassifierTests.id''), Some (Some ''PredictionTests.id'')]
   \<and> map fk_table [''users.id'', ''ClassifierTests.id'', ''PredictionTests.id''] =
        [''users'', ''ClassifierTests'', ''PredictionTests'']
   \<and> map fst tables =
        [''Users'', ''Workers'', ''OAuthAuth'', ''OAuthAccess'', ''PerformanceComparison'',
         ''TradeSites'', ''Tasks'', ''TaskResults'', ''PredictionTest'']
   \<and> map resolve_fk [''users.id'', ''ClassifierTests.id'', ''PredictionTests.id''] =
        [None, None, None]
   \<and> resolve_fk ''Users.id'' = Some Users"
  by (simp add: column_of_def class_defs fk_table_def resolve_fk_def tables_def)

subsection \<open>The deletion columns at insert\<close>

text \<open>
  Claim C9. For every class below \<^verbatim>\<open>AddDeleteTrackClass\<close>, an insert that supplies
  neither \<^verbatim>\<open>date_deleted\<close> nor \<^verbatim>\<open>deleted\<close> and is accepted stores in \<^verbatim>\<open>date_deleted\<close>
  a clock reading taken during that insert and leaves \<^verbatim>\<open>deleted\<close> null: the row carries
  a deletion timestamp although it was never flagged as deleted.
\<close>

theorem date_deleted_default_at_insert:
  assumes "cols \<in> set audit_deletable"
    and "map_of vals ''date_deleted'' = None"
    and "map_of vals ''deleted'' = None"
    and "insert_row cols vals e = (Inr r, e1)"
  shows "(\<exists>k. now_calls e \<le> k \<and> k < now_calls e1 \<and> cell r ''date_deleted'' = TimeV (clock e k))
         \<and> cell r ''deleted'' = Null"
proof -
  have r: "r = fst (insert_cols cols vals e)" and e1: "e1 = snd (insert_cols cols vals e)"
    using insert_row_Inr [OF assms(4)] by simp_all
  have ex: "\<exists>c\<in>set cols. attr c = ''date_deleted''"
    using assms(1) by (auto simp: audit_deletable_def class_defs)
  have dd: "\<forall>c\<in>set cols. attr c = ''date_deleted'' \<longrightarrow> dflt c = Some Now"
    using assms(1) by (auto simp: audit_deletable_def class_defs)
  have fl: "\<forall>c\<in>set cols. attr c = ''deleted'' \<longrightarrow> dflt c = None"
    using assms(1) by (auto simp: audit_deletable_def class_defs)
  show ?thesis
    unfolding r e1
    using cell_insert_cols_now [OF assms(2) ex dd, of e] cell_insert_cols_null [OF assms(3) fl, of e]
    by simp
qed

theorem date_deleted_default_at_insert_witness:
  "Users \<in> set audit_deletable
   \<and> map_of [(''username'', StrV ''alice'')] ''date_deleted'' = None
   \<and> map_of [(''username'', StrV ''alice'')] ''deleted'' = None
   \<and> fst (insert_row Users [(''username'', StrV ''alice'')] env0) =
       Inr [(''id'', Null), (''date_created'', TimeV 0), (''date_updated'', TimeV 1),
            (''date_deleted'', TimeV 2), (''deleted'', Null), (''created_user_id'', Null),
            (''deleted_user_id'', Null), (''username'', StrV ''alice''), (''secret_key'', Null),
            (''secret_key_salt'', StrV ''abcdefghijklmnopqrstuvwxyzABCDEF'')]
   \<and> (\<exists>k. now_calls env0 \<le> k \<and> k < 3
          \<and> cell (projr (fst (insert_row Users [(''username'', StrV ''alice'')] env0)))
               ''date_deleted'' = TimeV (clock env0 k))
   \<and> cell (projr (fst (insert_row Users [(''username'', StrV ''alice'')] env0))) ''deleted'' = Null"
proof -
  have m: "Users \<in> set audit_deletable"
    by (simp add: audit_deletable_def)
  have d: "map_of [(''username'', StrV ''alice'')] ''date_deleted'' = None"
    and f: "map_of [(''username'', StrV ''alice'')] ''deleted'' = None"
    by simp_all
  show ?thesis
    using date_deleted_default_at_insert [OF m d f insert_alice] m
    by (simp add: insert_alice)
qed

text \<open>
  Claim C1. The three deletion fields are not set together at a plain insert: the row
  that an insert of a user supplying only the username produces has a deletion timestamp
  while the flag and the deleting user are null. The docstring of \<^verbatim>\<open>AddDeleteTrackClass\<close>
  calls \<^verbatim>\<open>date_deleted\<close> the date the record was flagged as deleted.
\<close>

theorem fresh_user_row_is_mixed:
  "(case fst (insert_row Users [(''username'', StrV ''alice'')] env0) of
      Inr r \<Rightarrow>
        [cell r ''date_deleted'', cell r ''deleted'', cell r ''deleted_user_id''] =
        [TimeV 2, Null, Null]
    | Inl err \<Rightarrow> False)"
  by (simp add: insert_alice cell_def)

subsection \<open>Creation and update times\<close>

lemma insert_cols_append:
  "insert_cols (xs @ ys) vals e =
     (fst (insert_cols xs vals e) @ fst (insert_cols ys vals (snd (insert_cols xs vals e))),
      snd (insert_cols ys vals (snd (insert_cols xs vals e))))"
  by (induction xs arbitrary: e) (simp_all add: split_def Let_def)

lemma update_cols_append:
  "update_cols (xs @ ys) vals old e =
     (fst (update_cols xs vals old e) @ fst (update_cols ys vals old (snd (update_cols xs vals old e))),
      snd (update_cols ys vals old (snd (update_cols xs vals old e))))"
  by (induction xs arbitrary: e) (simp_all add: split_def Let_def)

lemma update_value_clock: "clock (snd (update_value c vals old e)) = clock e"
  by (simp add: update_value_def eval_generator_clock split: option.splits)

lemma update_value_now_calls: "now_calls e \<le> now_calls (snd (update_value c vals old e))"
  by (simp add: update_value_def eval_generator_now_calls split: option.splits)

lemma update_cols_clock: "clock (snd (update_cols cols vals old e)) = clock e"
  by (induction cols arbitrary: e) (simp_all add: split_def Let_def update_value_clock)

lemma update_cols_now_calls: "now_calls e \<le> now_calls (snd (update_cols cols vals old e))"
proof (induction cols arbitrary: e)
  case Nil
  show ?case by simp
next
  case (Cons c cs)
  have "now_calls e \<le> now_calls (snd (update_value c vals old e))"
    by (rule update_value_now_calls)
  also have "\<dots> \<le> now_calls (snd (update_cols cs vals old (snd (update_value c vals old e))))"
    by (rule Cons.IH)
  finally show ?case by (simp add: split_def Let_def)
qed

text \<open>The three columns of TimeBaseClass at an insert that leaves both timestamps to the defaults.\<close>

lemma insert_TimeBaseClass:
  assumes "map_of vals ''date_created'' = None" and "map_of vals ''date_updated'' = None"
  shows "insert_cols TimeBaseClass vals e =
     ([(''id'', (case map_of vals ''id'' of Some v \<Rightarrow> v | None \<Rightarrow> Null)),
       (''date_created'', TimeV (clock e (now_calls e))),
       (''date_updated'', TimeV (clock e (Suc (now_calls e))))],
      e\<lparr>now_calls := Suc (Suc (now_calls e))\<rparr>)"
  using assms
  by (simp add: class_defs insert_value_def now_def split_def Let_def split: option.splits)

lemma update_TimeBaseClass:
  assumes "map_of vals ''date_created'' = None" and "map_of vals ''date_updated'' = None"
  shows "update_cols TimeBaseClass vals old e =
     ([(''id'', (case map_of vals ''id'' of Some v \<Rightarrow> v | None \<Rightarrow> cell old ''id'')),
       (''date_created'', cell old ''date_created''),
       (''date_updated'', TimeV (clock e (now_calls e)))],
      e\<lparr>now_calls := Suc (now_calls e)\<rparr>)"
  using assms
  by (simp add: class_defs update_value_def now_def split_def Let_def split: option.splits)

lemma timestamped_prefix:
  "cols \<in> set timestamped \<Longrightarrow> \<exists>rest. cols = TimeBaseClass @ rest"
  by (auto simp: timestamped_def OwnedClass_def TestBases_def AddDeleteTrackClass_def Users_def
      Workers_def OAuthAuth_def OAuthAccess_def PerformanceComparison_def TradeSites_def Tasks_def
      TaskResults_def BaseTest_def PredictionTest_def)

lemma insert_timestamps:
  assumes "map_of vals ''date_created'' = None" and "map_of vals ''date_updated'' = None"
    and "insert_row (TimeBaseClass @ rest) vals e = (Inr r, e1)"
  shows "cell r ''date_created'' = TimeV (clock e (now_calls e))
       \<and> cell r ''date_updated'' = TimeV (clock e (Suc (now_calls e)))
       \<and> clock e1 = clock e \<and> Suc (Suc (now_calls e)) \<le> now_calls e1"
proof -
  have r: "r = fst (insert_cols (TimeBaseClass @ rest) vals e)"
    and e1: "e1 = snd (insert_cols (TimeBaseClass @ rest) vals e)"
    using insert_row_Inr [OF assms(3)] by simp_all
  have n: "Suc (Suc (now_calls e)) \<le> now_calls e1"
    unfolding e1 insert_cols_append insert_TimeBaseClass [OF assms(1,2)]
    using insert_cols_now_calls [of "e\<lparr>now_calls := Suc (Suc (now_calls e))\<rparr>" rest vals]
    by simp
  have c: "clock e1 = clock e"
    unfolding e1 by (rule insert_cols_clock)
  show ?thesis
    using n c
    unfolding r insert_cols_append insert_TimeBaseClass [OF assms(1,2)]
    by (simp add: cell_def)
qed

lemma update_row_Inr:
  "vals \<noteq> [] \<Longrightarrow> update_row cols vals old e = (Inr r, e1) \<Longrightarrow>
     r = fst (update_cols cols vals old e) \<and> e1 = snd (update_cols cols vals old e)
     \<and> check_row cols r = None"
  by (auto simp: update_row_def split_def Let_def split: option.splits)

lemma update_timestamps:
  assumes "vals \<noteq> []"
    and "map_of vals ''date_created'' = None" and "map_of vals ''date_updated'' = None"
    and "update_row (TimeBaseClass @ rest) vals old e = (Inr r, e1)"
  shows "cell r ''date_created'' = cell old ''date_created''
       \<and> cell r ''date_updated'' = TimeV (clock e (now_calls e))
       \<and> clock e1 = clock e \<and> Suc (now_calls e) \<le> now_calls e1"
proof -
  have r: "r = fst (update_cols (TimeBaseClass @ rest) vals old e)"
    and e1: "e1 = snd (update_cols (TimeBaseClass @ rest) vals old e)"
    using update_row_Inr [OF assms(1,4)] by simp_all
  have n: "Suc (now_calls e) \<le> now_calls e1"
    unfolding e1 update_cols_append update_TimeBaseClass [OF assms(2,3)]
    using update_cols_now_calls [of "e\<lparr>now_calls := Suc (now_calls e)\<rparr>" rest vals old]
    by simp
  have c: "clock e1 = clock e"
    unfolding e1 by (rule update_cols_clock)
  show ?thesis
    using n c
    unfolding r update_cols_append update_TimeBaseClass [OF assms(2,3)]
    by (simp add: cell_def)
qed

text \<open>What a run of updates keeps: the creation time, and an update time that is a clock
  reading taken no earlier than the creation time's.\<close>

lemma run_updates_timestamps:
  assumes "\<forall>u\<in>set us. u \<noteq> [] \<and> map_of u ''date_created'' = None \<and> map_of u ''date_updated'' = None"
    and "run_updates (TimeBaseClass @ rest) us r e = (Inr r1, e1)"
    and "cell r ''date_updated'' = TimeV (clock e j)" and "j < now_calls e"
  shows "cell r1 ''date_created'' = cell r ''date_created''
       \<and> clock e1 = clock e \<and> now_calls e \<le> now_calls e1
       \<and> (\<exists>k. j \<le> k \<and> k < now_calls e1 \<and> cell r1 ''date_updated'' = TimeV (clock e k))"
  using assms
proof (induction us arbitrary: r e j)
  case Nil
  then show ?case by auto
next
  case (Cons u us)
  obtain x e' where up: "update_row (TimeBaseClass @ rest) u r e = (x, e')"
    by (cases "update_row (TimeBaseClass @ rest) u r e")
  with Cons.prems(2) obtain r' where x: "x = Inr r'"
    by (cases x) auto
  have run: "run_updates (TimeBaseClass @ rest) us r' e' = (Inr r1, e1)"
    using Cons.prems(2) up x by simp
  have u: "u \<noteq> []" "map_of u ''date_created'' = None" "map_of u ''date_updated'' = None"
    using Cons.prems(1) by simp_all
  have step: "cell r' ''date_created'' = cell r ''date_created''
       \<and> cell r' ''date_updated'' = TimeV (clock e (now_calls e))
       \<and> clock e' = clock e \<and> Suc (now_calls e) \<le> now_calls e'"
    using update_timestamps [OF u] up x by simp
  have rest_ok: "\<forall>u\<in>set us. u \<noteq> [] \<and> map_of u ''date_created'' = None \<and> map_of u ''date_updated'' = None"
    using Cons.prems(1) by simp
  have a: "cell r' ''date_updated'' = TimeV (clock e' (now_calls e))" using step by simp
  have b: "now_calls e < now_calls e'" using step by simp
  from Cons.IH [OF rest_ok run a b] obtain k where
    k: "now_calls e \<le> k" "k < now_calls e1" "cell r1 ''date_updated'' = TimeV (clock e' k)"
    and o: "cell r1 ''date_created'' = cell r' ''date_created''" "clock e1 = clock e'"
       "now_calls e' \<le> now_calls e1"
    by blast
  have "j \<le> k" using k(1) Cons.prems(4) by simp
  then show ?case
    using k o step by (intro conjI exI [of _ k]) simp_all
qed

text \<open>
  Claim C2, as amended. The two timestamp columns are ordinary writable columns filled by
  \<^verbatim>\<open>default\<close> and \<^verbatim>\<open>onupdate\<close>, so the property holds only for writes that leave them
  to these generators and for a clock that does not go backwards. For every class below
  \<^verbatim>\<open>TimeBaseClass\<close>: take an accepted insert, then any accepted run of updates, then one
  more accepted update, where no write assigns \<^verbatim>\<open>date_created\<close> or \<^verbatim>\<open>date_updated\<close>
  itself and the successive clock readings do not decrease. Then \<^verbatim>\<open>date_created\<close> is the
  first clock reading of the insert and is the same after every update, \<^verbatim>\<open>date_updated\<close>
  after the last update is the clock reading taken by that update, and in the inserted row
  and after every update the update time is not before the creation time.
\<close>

theorem timestamps_maintained:
  assumes "cols \<in> set timestamped"
    and "mono (clock e)"
    and "map_of vals ''date_created'' = None" and "map_of vals ''date_updated'' = None"
    and "\<forall>u\<in>set (us @ [u']). u \<noteq> [] \<and> map_of u ''date_created'' = None \<and> map_of u ''date_updated'' = None"
    and "insert_row cols vals e = (Inr r0, e0)"
    and "run_updates cols us r0 e0 = (Inr r1, e1)"
    and "update_row cols u' r1 e1 = (Inr r2, e2)"
  shows "cell r0 ''date_created'' = TimeV (clock e (now_calls e))
       \<and> cell r1 ''date_created'' = cell r0 ''date_created''
       \<and> cell r2 ''date_created'' = cell r0 ''date_created''
       \<and> cell r2 ''date_updated'' = TimeV (clock e (now_calls e1))
       \<and> now_calls e < now_calls e1 \<and> now_calls e1 < now_calls e2
       \<and> created_le_updated r0 \<and> created_le_updated r1 \<and> created_le_updated r2"
proof -
  obtain rest where cols: "cols = TimeBaseClass @ rest"
    using timestamped_prefix [OF assms(1)] by blast
  have i: "cell r0 ''date_created'' = TimeV (clock e (now_calls e))"
      "cell r0 ''date_updated'' = TimeV (clock e (Suc (now_calls e)))"
      "clock e0 = clock e" "Suc (Suc (now_calls e)) \<le> now_calls e0"
    using insert_timestamps [OF assms(3,4)] assms(6) cols by simp_all
  have us: "\<forall>u\<in>set us. u \<noteq> [] \<and> map_of u ''date_created'' = None \<and> map_of u ''date_updated'' = None"
    using assms(5) by simp
  have u': "u' \<noteq> []" "map_of u' ''date_created'' = None" "map_of u' ''date_updated'' = None"
    using assms(5) by simp_all
  have a: "cell r0 ''date_updated'' = TimeV (clock e0 (Suc (now_calls e)))" using i by simp
  have b: "Suc (now_calls e) < now_calls e0" using i(4) by simp
  from run_updates_timestamps [OF us assms(7) [unfolded cols] a b] obtain k where
    k: "Suc (now_calls e) \<le> k" "k < now_calls e1" "cell r1 ''date_updated'' = TimeV (clock e0 k)"
    and o: "cell r1 ''date_created'' = cell r0 ''date_created''" "clock e1 = clock e0"
       "now_calls e0 \<le> now_calls e1"
    by blast
  have s: "cell r2 ''date_created'' = cell r1 ''date_created''"
      "cell r2 ''date_updated'' = TimeV (clock e1 (now_calls e1))"
      "Suc (now_calls e1) \<le> now_calls e2"
    using update_timestamps [OF u'] assms(8) cols by simp_all
  have m1: "clock e (now_calls e) \<le> clock e (Suc (now_calls e))"
    using assms(2) by (simp add: mono_def)
  have m2: "clock e (now_calls e) \<le> clock e k"
    using assms(2) k(1) by (simp add: mono_def)
  have m3: "clock e (now_calls e) \<le> clock e (now_calls e1)"
    using assms(2) i(4) o(3) by (simp add: mono_def)
  show ?thesis
    using i k o s m1 m2 m3 by (simp add: created_le_updated_def)
qed

text \<open>
  Claim C2, the counterexamples to the claim as stated. An authorization row is inserted
  with clock readings 0 and 1. An update that assigns \<^verbatim>\<open>date_created = 99\<close> is accepted:
  the creation time changes after the insert, and the refreshed update time 2 is before
  it. An update that assigns \<^verbatim>\<open>date_updated = -5\<close> is accepted and stores that value
  instead of the clock reading, before the creation time 0. With a clock that runs
  backwards (readings 10, 9, ...) the insert alone stores creation time 10 and update
  time 9.
\<close>

theorem timestamps_not_enforced:
  "fst (insert_row OAuthAuth [(''token'', StrV ''t'')] env0) =
     Inr [(''id'', Null), (''date_created'', TimeV 0), (''date_updated'', TimeV 1),
          (''token'', StrV ''t'')]
   \<and> fst (update_row OAuthAuth [(''date_created'', TimeV 99)]
          [(''id'', Null), (''date_created'', TimeV 0), (''date_updated'', TimeV 1),
           (''token'', StrV ''t'')] (env0\<lparr>now_calls := 2\<rparr>)) =
     Inr [(''id'', Null), (''date_created'', TimeV 99), (''date_updated'', TimeV 2),
          (''token'', StrV ''t'')]
   \<and> \<not> created_le_updated
          [(''id'', Null), (''date_created'', TimeV 99), (''date_updated'', TimeV 2),
           (''token'', StrV ''t'')]
   \<and> fst (update_row OAuthAuth [(''token'', StrV ''u''), (''date_updated'', TimeV (- 5))]
          [(''id'', Null), (''date_created'', TimeV 0), (''date_updated'', TimeV 1),
           (''token'', StrV ''t'')] (env0\<lparr>now_calls := 2\<rparr>)) =
     Inr [(''id'', Null), (''date_created'', TimeV 0), (''date_updated'', TimeV (- 5)),
          (''token'', StrV ''u'')]
   \<and> \<not> created_le_updated
          [(''id'', Null), (''date_created'', TimeV 0), (''date_updated'', TimeV (- 5)),
           (''token'', StrV ''u'')]
   \<and> fst (insert_row OAuthAuth [(''token'', StrV ''t'')]
          (env0\<lparr>clock := (\<lambda>n. 10 - int n)\<rparr>)) =
     Inr [(''id'', Null), (''date_created'', TimeV 10), (''date_updated'', TimeV 9),
          (''token'', StrV ''t'')]
   \<and> \<not> created_le_updated
          [(''id'', Null), (''date_created'', TimeV 10), (''date_updated'', TimeV 9),
           (''token'', StrV ''t'')]"
  by (simp add: insert_row_def update_row_def class_defs env0_def insert_value_def
      update_value_def now_def check_value_def cell_def split_def Let_def
      created_le_updated_def)

lemma insert_token:
  "insert_row OAuthAuth [(''token'', StrV ''t'')] env0 =
     (Inr [(''id'', Null), (''date_created'', TimeV 0), (''date_updated'', TimeV 1),
           (''token'', StrV ''t'')],
      env0\<lparr>now_calls := 2\<rparr>)"
  by (simp add: insert_row_def class_defs env0_def insert_value_def now_def
      check_value_def cell_def split_def Let_def)

lemma update_token_u:
  "run_updates OAuthAuth [[(''token'', StrV ''u'')]]
     [(''id'', Null), (''date_created'', TimeV 0), (''date_updated'', TimeV 1),
      (''token'', StrV ''t'')] (env0\<lparr>now_calls := 2\<rparr>) =
     (Inr [(''id'', Null), (''date_created'', TimeV 0), (''date_updated'', TimeV 2),
           (''token'', StrV ''u'')],
      env0\<lparr>now_calls := 3\<rparr>)"
  by (simp add: update_row_def class_defs env0_def update_value_def now_def
      check_value_def cell_def split_def Let_def)

lemma update_token_w:
  "update_row OAuthAuth [(''token'', StrV ''w'')]
     [(''id'', Null), (''date_created'', TimeV 0), (''date_updated'', TimeV 2),
      (''token'', StrV ''u'')] (env0\<lparr>now_calls := 3\<rparr>) =
     (Inr [(''id'', Null), (''date_created'', TimeV 0), (''date_updated'', TimeV 3),
           (''token'', StrV ''w'')],
      env0\<lparr>now_calls := 4\<rparr>)"
  by (simp add: update_row_def class_defs env0_def update_value_def now_def
      check_value_def cell_def split_def Let_def)

theorem timestamps_maintained_witness:
  "OAuthAuth \<in> set timestamped \<and> mono (clock env0)
   \<and> insert_row OAuthAuth [(''token'', StrV ''t'')] env0 =
       (Inr [(''id'', Null), (''date_created'', TimeV 0), (''date_updated'', TimeV 1),
             (''token'', StrV ''t'')], env0\<lparr>now_calls := 2\<rparr>)
   \<and> run_updates OAuthAuth [[(''token'', StrV ''u'')]]
        [(''id'', Null), (''date_created'', TimeV 0), (''date_updated'', TimeV 1),
         (''token'', StrV ''t'')] (env0\<lparr>now_calls := 2\<rparr>) =
       (Inr [(''id'', Null), (''date_created'', TimeV 0), (''date_updated'', TimeV 2),
             (''token'', StrV ''u'')], env0\<lparr>now_calls := 3\<rparr>)
   \<and> update_row OAuthAuth [(''token'', StrV ''w'')]
        [(''id'', Null), (''date_created'', TimeV 0), (''date_updated'', TimeV 2),
         (''token'', StrV ''u'')] (env0\<lparr>now_calls := 3\<rparr>) =
       (Inr [(''id'', Null), (''date_created'', TimeV 0), (''date_updated'', TimeV 3),
             (''token'', StrV ''w'')], env0\<lparr>now_calls := 4\<rparr>)
   \<and> cell [(''id'', Null), (''date_created'', TimeV 0), (''date_updated'', TimeV 3),
            (''token'', StrV ''w'')] ''date_created'' = TimeV (clock env0 (now_calls env0))
   \<and> cell [(''id'', Null), (''date_created'', TimeV 0), (''date_updated'', TimeV 3),
            (''token'', StrV ''w'')] ''date_updated'' = TimeV (clock env0 3)
   \<and> created_le_updated [(''id'', Null), (''date_created'', TimeV 0), (''date_updated'', TimeV 3),
            (''token'', StrV ''w'')]"
proof -
  have t: "OAuthAuth \<in> set timestamped"
    by (simp add: timestamped_def)
  have m: "mono (clock env0)"
    by (simp add: mono_def env0_def)
  have c: "map_of [(''token'', StrV ''t'')] ''date_created'' = None"
    and u: "map_of [(''token'', StrV ''t'')] ''date_updated'' = None"
    by simp_all
  have w: "\<forall>u\<in>set ([[(''token'', StrV ''u'')]] @ [[(''token'', StrV ''w'')]]).
      u \<noteq> [] \<and> map_of u ''date_created'' = None \<and> map_of u ''date_updated'' = None"
    by simp
  show ?thesis
    using timestamps_maintained [OF t m c u w insert_token update_token_u update_token_w]
      t m insert_token update_token_u update_token_w
    by (simp add: env0_def)
qed

subsection \<open>The salt of a user\<close>










text \<open>An update that does not assign an attribute whose column has no \<open>onupdate\<close> keeps
  the stored cell.\<close>

lemma cell_update_cols_keep:
  assumes "map_of vals a = None"
    and "\<exists>c\<in>set cols. attr c = a"
    and "\<forall>c\<in>set cols. attr c = a \<longrightarrow> onupdate c = None"
  shows "cell (fst (update_cols cols vals old e)) a = cell old a"
  using assms(2,3)
proof (induction cols arbitrary: e)
  case Nil
  then show ?case by simp
next
  case (Cons c cs)
  then show ?case
    using assms(1) by (auto simp: split_def Let_def cell_Cons update_value_def)
qed









subsection \<open>Soft deletion\<close>

text \<open>What the checks of a stored row come to, class by class.\<close>

lemma choice_accepts_TEST_TYPES:
  "choice_accepts TEST_TYPES v \<longleftrightarrow> v \<in> {StrV ''mock'', StrV ''live''}"
  by (cases v) (auto simp: choice_accepts_def TEST_TYPES_def)

lemma choice_accepts_PREDICTION_TYPES: "choice_accepts PREDICTION_TYPES v = False"
  by (cases v) (simp_all add: choice_accepts_def PREDICTION_TYPES_def)

lemma check_row_AddDeleteTrackClass: "check_row AddDeleteTrackClass r = None"
  by (simp add: class_defs check_value_def)

lemma check_row_Users:
  "check_row Users r =
     (if cell r ''username'' = Null then Some (NotNullViolation ''username'') else None)"
  by (simp add: class_defs check_value_def)

lemma check_row_PerformanceComparison: "check_row PerformanceComparison r = None"
  by (simp add: class_defs check_value_def)

lemma check_row_BaseTest:
  "check_row BaseTest r =
     (if cell r ''test_type'' = Null \<or> choice_accepts TEST_TYPES (cell r ''test_type'') then None
      else Some (EnumConstraintViolation ''test_type''))"
  by (simp add: class_defs check_value_def)

lemma check_row_PredictionTest:
  "check_row PredictionTest r =
     (if cell r ''test_type'' = Null \<or> choice_accepts TEST_TYPES (cell r ''test_type'') then
        (if cell r ''prediction_type'' = Null then None
         else Some (EnumConstraintViolation ''prediction_type''))
      else Some (EnumConstraintViolation ''test_type''))"
  by (simp add: class_defs check_value_def choice_accepts_PREDICTION_TYPES)

lemma cell_update_cols_supplied:
  assumes "map_of vals a = Some v" and "\<exists>c\<in>set cols. attr c = a"
  shows "cell (fst (update_cols cols vals old e)) a = v"
  using assms(2)
proof (induction cols arbitrary: e)
  case Nil
  then show ?case by simp
next
  case (Cons c cs)
  then show ?case
    using assms(1) by (auto simp: split_def Let_def cell_Cons update_value_def)
qed

lemma cell_update_cols_notin:
  "a \<notin> attr ` set cols \<Longrightarrow> cell (fst (update_cols cols vals old e)) a = Null"
  by (induction cols arbitrary: e) (auto simp: split_def Let_def cell_Cons cell_def)

lemma onupdate_only_date_updated:
  "cols \<in> set timestamped \<Longrightarrow> c \<in> set cols \<Longrightarrow> attr c \<noteq> ''date_updated'' \<Longrightarrow> onupdate c = None"
  by (auto simp: timestamped_def class_defs)

lemma audit_deletable_timestamped: "cols \<in> set audit_deletable \<Longrightarrow> cols \<in> set timestamped"
  by (auto simp: audit_deletable_def timestamped_def)

lemma audit_deletable_attrs:
  "cols \<in> set audit_deletable \<Longrightarrow>
     {''deleted'', ''date_deleted'', ''deleted_user_id''} \<subseteq> attr ` set cols"
  by (auto simp: audit_deletable_def class_defs)

lemma update_row_result:
  "vals \<noteq> [] \<Longrightarrow> check_row cols (fst (update_cols cols vals old e)) = None \<Longrightarrow>
     update_row cols vals old e = (Inr (fst (update_cols cols vals old e)), snd (update_cols cols vals old e))"
  by (simp add: update_row_def split_def Let_def)

lemma update_cols_keeps:
  assumes "cols \<in> set timestamped" and "map_of vals a = None" and "a \<noteq> ''date_updated''"
    and "a \<in> attr ` set cols"
  shows "cell (fst (update_cols cols vals old e)) a = cell old a"
proof -
  have ex: "\<exists>c\<in>set cols. attr c = a" using assms(4) by auto
  have no: "\<forall>c\<in>set cols. attr c = a \<longrightarrow> onupdate c = None"
    using onupdate_only_date_updated [OF assms(1)] assms(3) by auto
  show ?thesis by (rule cell_update_cols_keep [OF assms(2) ex no])
qed

lemma soft_delete_check:
  assumes "cols \<in> set audit_deletable" and "check_row cols r = None"
  shows "check_row cols (fst (update_cols cols
           [(''deleted'', BoolV True), (''date_deleted'', TimeV t), (''deleted_user_id'', IntV u)] r e)) = None"
proof -
  let ?vals = "[(''deleted'', BoolV True), (''date_deleted'', TimeV t), (''deleted_user_id'', IntV u)]"
  let ?r = "fst (update_cols cols ?vals r e)"
  have ts: "cols \<in> set timestamped" by (rule audit_deletable_timestamped [OF assms(1)])
  have keep: "a \<in> attr ` set cols \<Longrightarrow> a \<in> {''username'', ''test_type'', ''prediction_type''}
      \<Longrightarrow> cell ?r a = cell r a" for a
    by (rule update_cols_keeps [OF ts]) auto
  consider "cols = AddDeleteTrackClass" | "cols = Users" | "cols = PerformanceComparison"
    | "cols = BaseTest" | "cols = PredictionTest"
    using assms(1) by (auto simp: audit_deletable_def)
  then show ?thesis
  proof cases
    case 1
    then show ?thesis by (simp add: check_row_AddDeleteTrackClass)
  next
    case 2
    have "''username'' \<in> attr ` set Users" by (simp add: class_defs)
    then have "cell ?r ''username'' = cell r ''username''" using keep 2 by simp
    then show ?thesis using assms(2) 2 by (auto simp: check_row_Users split: if_splits)
  next
    case 3
    then show ?thesis by (simp add: check_row_PerformanceComparison)
  next
    case 4
    have "''test_type'' \<in> attr ` set BaseTest" by (simp add: class_defs)
    then have "cell ?r ''test_type'' = cell r ''test_type''" using keep 4 by simp
    then show ?thesis using assms(2) 4 by (auto simp: check_row_BaseTest split: if_splits)
  next
    case 5
    have "''test_type'' \<in> attr ` set PredictionTest" "''prediction_type'' \<in> attr ` set PredictionTest"
      by (simp_all add: class_defs)
    then have "cell ?r ''test_type'' = cell r ''test_type''"
      "cell ?r ''prediction_type'' = cell r ''prediction_type''" using keep 5 by simp_all
    then show ?thesis using assms(2) 5 by (auto simp: check_row_PredictionTest split: if_splits)
  qed
qed

text \<open>
  Claim C3, as amended. A soft delete is one update that assigns the flag, the deletion
  timestamp and the deleting user. On every stored row of a class below
  \<^verbatim>\<open>AddDeleteTrackClass\<close>, whether the row is already flagged as deleted or not, that
  update is accepted and the resulting row has the flag true, the given timestamp and the
  given user: the three are set in one step, and no state-conflict error guards a row
  that is already deleted.
\<close>

theorem soft_delete_sets_fields_without_guard:
  assumes "cols \<in> set audit_deletable" and "check_row cols r = None"
  shows "\<exists>r' e'. soft_delete cols byUser atTime r e = (Inr r', e')
           \<and> cell r' ''deleted'' = BoolV True
           \<and> cell r' ''date_deleted'' = TimeV atTime
           \<and> cell r' ''deleted_user_id'' = IntV byUser"
proof -
  let ?vals = "[(''deleted'', BoolV True), (''date_deleted'', TimeV atTime),
                (''deleted_user_id'', IntV byUser)]"
  let ?r = "fst (update_cols cols ?vals r e)"
  have ok: "check_row cols ?r = None"
    by (rule soft_delete_check [OF assms])
  have res: "soft_delete cols byUser atTime r e = (Inr ?r, snd (update_cols cols ?vals r e))"
    unfolding soft_delete_def by (rule update_row_result [OF _ ok]) simp
  have at: "\<exists>c\<in>set cols. attr c = ''deleted''" "\<exists>c\<in>set cols. attr c = ''date_deleted''"
    "\<exists>c\<in>set cols. attr c = ''deleted_user_id''"
    using audit_deletable_attrs [OF assms(1)] by auto
  have "cell ?r ''deleted'' = BoolV True"
    by (rule cell_update_cols_supplied [OF _ at(1)]) simp
  moreover have "cell ?r ''date_deleted'' = TimeV atTime"
    by (rule cell_update_cols_supplied [OF _ at(2)]) simp
  moreover have "cell ?r ''deleted_user_id'' = IntV byUser"
    by (rule cell_update_cols_supplied [OF _ at(3)]) simp
  ultimately show ?thesis using res by blast
qed

lemma soft_delete_alice_first:
  "soft_delete Users 7 50
     [(''id'', Null), (''date_created'', TimeV 0), (''date_updated'', TimeV 1),
      (''date_deleted'', TimeV 2), (''deleted'', Null), (''created_user_id'', Null),
      (''deleted_user_id'', Null), (''username'', StrV ''alice''), (''secret_key'', Null),
      (''secret_key_salt'', StrV ''abcdefghijklmnopqrstuvwxyzABCDEF'')]
     (env0\<lparr>now_calls := 3, rand_calls := 32\<rparr>) =
   (Inr [(''id'', Null), (''date_created'', TimeV 0), (''date_updated'', TimeV 3),
      (''date_deleted'', TimeV 50), (''deleted'', BoolV True), (''created_user_id'', Null),
      (''deleted_user_id'', IntV 7), (''username'', StrV ''alice''), (''secret_key'', Null),
      (''secret_key_salt'', StrV ''abcdefghijklmnopqrstuvwxyzABCDEF'')],
    env0\<lparr>now_calls := 4, rand_calls := 32\<rparr>)"
  by (simp add: soft_delete_def update_row_def class_defs env0_def update_value_def now_def
      check_value_def cell_def split_def Let_def)

lemma soft_delete_alice_second:
  "soft_delete Users 8 60
     [(''id'', Null), (''date_created'', TimeV 0), (''date_updated'', TimeV 3),
      (''date_deleted'', TimeV 50), (''deleted'', BoolV True), (''created_user_id'', Null),
      (''deleted_user_id'', IntV 7), (''username'', StrV ''alice''), (''secret_key'', Null),
      (''secret_key_salt'', StrV ''abcdefghijklmnopqrstuvwxyzABCDEF'')]
     (env0\<lparr>now_calls := 4, rand_calls := 32\<rparr>) =
   (Inr [(''id'', Null), (''date_created'', TimeV 0), (''date_updated'', TimeV 4),
      (''date_deleted'', TimeV 60), (''deleted'', BoolV True), (''created_user_id'', Null),
      (''deleted_user_id'', IntV 8), (''username'', StrV ''alice''), (''secret_key'', Null),
      (''secret_key_salt'', StrV ''abcdefghijklmnopqrstuvwxyzABCDEF'')],
    env0\<lparr>now_calls := 5, rand_calls := 32\<rparr>)"
  by (simp add: soft_delete_def update_row_def class_defs env0_def update_value_def now_def
      check_value_def cell_def split_def Let_def)

text \<open>
  Claim C3, the counterexample to the claim as stated: a user row is soft-deleted by
  user 7 at time 50; a second soft delete of the deleted row, by user 8 at time 60, is
  accepted and overwrites the deletion timestamp and the deleting user.
\<close>

theorem second_soft_delete_accepted:
  "fst (soft_delete Users 7 50
     [(''id'', Null), (''date_created'', TimeV 0), (''date_updated'', TimeV 1),
      (''date_deleted'', TimeV 2), (''deleted'', Null), (''created_user_id'', Null),
      (''deleted_user_id'', Null), (''username'', StrV ''alice''), (''secret_key'', Null),
      (''secret_key_salt'', StrV ''abcdefghijklmnopqrstuvwxyzABCDEF'')]
     (env0\<lparr>now_calls := 3, rand_calls := 32\<rparr>)) =
   Inr [(''id'', Null), (''date_created'', TimeV 0), (''date_updated'', TimeV 3),
      (''date_deleted'', TimeV 50), (''deleted'', BoolV True), (''created_user_id'', Null),
      (''deleted_user_id'', IntV 7), (''username'', StrV ''alice''), (''secret_key'', Null),
      (''secret_key_salt'', StrV ''abcdefghijklmnopqrstuvwxyzABCDEF'')]
   \<and> fst (soft_delete Users 8 60
     [(''id'', Null), (''date_created'', TimeV 0), (''date_updated'', TimeV 3),
      (''date_deleted'', TimeV 50), (''deleted'', BoolV True), (''created_user_id'', Null),
      (''deleted_user_id'', IntV 7), (''username'', StrV ''alice''), (''secret_key'', Null),
      (''secret_key_salt'', StrV ''abcdefghijklmnopqrstuvwxyzABCDEF'')]
     (env0\<lparr>now_calls := 4, rand_calls := 32\<rparr>)) =
   Inr [(''id'', Null), (''date_created'', TimeV 0), (''date_updated'', TimeV 4),
      (''date_deleted'', TimeV 60), (''deleted'', BoolV True), (''created_user_id'', Null),
      (''deleted_user_id'', IntV 8), (''username'', StrV ''alice''), (''secret_key'', Null),
      (''secret_key_salt'', StrV ''abcdefghijklmnopqrstuvwxyzABCDEF'')]"
  by (simp add: soft_delete_alice_first soft_delete_alice_second)

theorem soft_delete_sets_fields_without_guard_witness:
  "Users \<in> set audit_deletable
   \<and> check_row Users
       [(''id'', Null), (''date_created'', TimeV 0), (''date_updated'', TimeV 1),
        (''date_deleted'', TimeV 2), (''deleted'', Null), (''created_user_id'', Null),
        (''deleted_user_id'', Null), (''username'', StrV ''alice''), (''secret_key'', Null),
        (''secret_key_salt'', StrV ''abcdefghijklmnopqrstuvwxyzABCDEF'')] = None
   \<and> (\<exists>r' e'. soft_delete Users 7 50
       [(''id'', Null), (''date_created'', TimeV 0), (''date_updated'', TimeV 1),
        (''date_deleted'', TimeV 2), (''deleted'', Null), (''created_user_id'', Null),
        (''deleted_user_id'', Null), (''username'', StrV ''alice''), (''secret_key'', Null),
        (''secret_key_salt'', StrV ''abcdefghijklmnopqrstuvwxyzABCDEF'')]
       (env0\<lparr>now_calls := 3, rand_calls := 32\<rparr>) = (Inr r', e')
       \<and> cell r' ''deleted'' = BoolV True
       \<and> cell r' ''date_deleted'' = TimeV 50
       \<and> cell r' ''deleted_user_id'' = IntV 7)"
proof -
  have m: "Users \<in> set audit_deletable"
    by (simp add: audit_deletable_def)
  have c: "check_row Users
       [(''id'', Null), (''date_created'', TimeV 0), (''date_updated'', TimeV 1),
        (''date_deleted'', TimeV 2), (''deleted'', Null), (''created_user_id'', Null),
        (''deleted_user_id'', Null), (''username'', StrV ''alice''), (''secret_key'', Null),
        (''secret_key_salt'', StrV ''abcdefghijklmnopqrstuvwxyzABCDEF'')] = None"
    by (simp add: check_row_Users cell_def)
  show ?thesis
    using soft_delete_sets_fields_without_guard [OF m c, of 7 50 "env0\<lparr>now_calls := 3, rand_calls := 32\<rparr>"] m c
    by simp
qed

subsection \<open>Enumerated kinds\<close>

lemma insert_row_unfold:
  "insert_row cols vals e =
     ((case check_row cols (fst (insert_cols cols vals e)) of
         Some err \<Rightarrow> Inl err | None \<Rightarrow> Inr (fst (insert_cols cols vals e))),
      snd (insert_cols cols vals e))"
  by (simp add: insert_row_def split_def Let_def split: option.splits)

lemma update_row_unfold:
  "vals \<noteq> [] \<Longrightarrow> update_row cols vals old e =
     ((case check_row cols (fst (update_cols cols vals old e)) of
         Some err \<Rightarrow> Inl err | None \<Rightarrow> Inr (fst (update_cols cols vals old e))),
      snd (update_cols cols vals old e))"
  by (simp add: update_row_def split_def Let_def split: option.splits)

lemma test_type_present:
  "cols \<in> set [BaseTest, PredictionTest] \<Longrightarrow> \<exists>c\<in>set cols. attr c = ''test_type''"
  by (auto simp: class_defs)

lemma BaseTest_check:
  assumes "cols \<in> set [BaseTest, PredictionTest]"
    and "cell r ''test_type'' = v" and "v \<noteq> Null"
    and "cell r ''prediction_type'' = Null"
  shows "check_row cols r =
     (if v \<in> {StrV ''mock'', StrV ''live''} then None
      else Some (EnumConstraintViolation ''test_type''))"
  using assms
  by (auto simp: check_row_BaseTest check_row_PredictionTest choice_accepts_TEST_TYPES)

text \<open>
  Claim C4. For a write of a base test configuration (\<^verbatim>\<open>BaseTest\<close> or its specialization
  \<^verbatim>\<open>PredictionTest\<close>) that assigns a non-null test type and no prediction type: the insert
  is accepted if and only if the value is \<^verbatim>\<open>mock\<close> or \<^verbatim>\<open>live\<close>; an accepted row stores
  that value; a rejected insert fails with the enum-constraint violation of
  \<^verbatim>\<open>test_type\<close> and leaves the table as it was; and an update of a stored row that has no
  prediction type is accepted under the same condition.
\<close>

theorem test_type_accepts_declared_set:
  assumes "cols \<in> set [BaseTest, PredictionTest]"
    and "map_of vals ''test_type'' = Some v" and "v \<noteq> Null"
    and "map_of vals ''prediction_type'' = None"
  shows "((\<exists>r. fst (insert_row cols vals e) = Inr r) \<longleftrightarrow> v \<in> {StrV ''mock'', StrV ''live''})
       \<and> (\<forall>r. fst (insert_row cols vals e) = Inr r \<longrightarrow> cell r ''test_type'' = v)
       \<and> (v \<notin> {StrV ''mock'', StrV ''live''} \<longrightarrow>
            (\<exists>e'. add_row cols vals (e, tbl) = (Some (EnumConstraintViolation ''test_type''), e', tbl)))
       \<and> (cell old ''prediction_type'' = Null \<longrightarrow>
            ((\<exists>r. fst (update_row cols vals old e) = Inr r) \<longleftrightarrow> v \<in> {StrV ''mock'', StrV ''live''}))"
proof -
  let ?r = "fst (insert_cols cols vals e)"
  let ?u = "fst (update_cols cols vals old e)"
  have ex: "\<exists>c\<in>set cols. attr c = ''test_type''"
    by (rule test_type_present [OF assms(1)])
  have tv: "cell ?r ''test_type'' = v"
    by (rule cell_insert_cols_supplied [OF assms(2) ex])
  have nd: "\<forall>c\<in>set cols. attr c = ''prediction_type'' \<longrightarrow> dflt c = None"
    using assms(1) by (auto simp: class_defs)
  have pn: "cell ?r ''prediction_type'' = Null"
    by (rule cell_insert_cols_null [OF assms(4) nd])
  have chk: "check_row cols ?r =
     (if v \<in> {StrV ''mock'', StrV ''live''} then None else Some (EnumConstraintViolation ''test_type''))"
    by (rule BaseTest_check [OF assms(1) tv assms(3) pn])
  have a: "(\<exists>r. fst (insert_row cols vals e) = Inr r) \<longleftrightarrow> v \<in> {StrV ''mock'', StrV ''live''}"
    unfolding insert_row_unfold using chk by (simp split: option.splits)
  have b: "\<forall>r. fst (insert_row cols vals e) = Inr r \<longrightarrow> cell r ''test_type'' = v"
    unfolding insert_row_unfold using tv by (auto split: option.splits)
  have c: "v \<notin> {StrV ''mock'', StrV ''live''} \<longrightarrow>
      (\<exists>e'. add_row cols vals (e, tbl) = (Some (EnumConstraintViolation ''test_type''), e', tbl))"
    unfolding add_row_def insert_row_unfold using chk by simp
  have d: "cell old ''prediction_type'' = Null \<longrightarrow>
      ((\<exists>r. fst (update_row cols vals old e) = Inr r) \<longleftrightarrow> v \<in> {StrV ''mock'', StrV ''live''})"
  proof
    assume o: "cell old ''prediction_type'' = Null"
    have ne: "vals \<noteq> []" using assms(2) by auto
    have tu: "cell ?u ''test_type'' = v"
      by (rule cell_update_cols_supplied [OF assms(2) ex])
    have ts: "cols \<in> set timestamped" using assms(1) by (auto simp: timestamped_def)
    have pu: "cell ?u ''prediction_type'' = Null"
    proof (cases "''prediction_type'' \<in> attr ` set cols")
      case True
      show ?thesis
        using update_cols_keeps [OF ts assms(4) _ True, of old e] o by simp
    next
      case False
      then show ?thesis by (simp add: cell_update_cols_notin)
    qed
    have "check_row cols ?u =
       (if v \<in> {StrV ''mock'', StrV ''live''} then None else Some (EnumConstraintViolation ''test_type''))"
      by (rule BaseTest_check [OF assms(1) tu assms(3) pu])
    then show "(\<exists>r. fst (update_row cols vals old e) = Inr r) \<longleftrightarrow> v \<in> {StrV ''mock'', StrV ''live''}"
      unfolding update_row_unfold [OF ne] by (simp split: option.splits)
  qed
  show ?thesis using a b c d by blast
qed

text \<open>
  Claim C7. The declared set of prediction kinds is empty, so every write of a
  \<^verbatim>\<open>PredictionTest\<close> that assigns a non-null prediction type is rejected with an
  enum-constraint violation: an insert leaves the table as it was, an update fails.
\<close>

theorem prediction_type_always_rejected:
  assumes "map_of vals ''prediction_type'' = Some v" and "v \<noteq> Null"
  shows "PREDICTION_TYPES = []
       \<and> (\<exists>err e'. add_row PredictionTest vals (e, tbl) = (Some err, e', tbl)
             \<and> err \<in> {EnumConstraintViolation ''test_type'', EnumConstraintViolation ''prediction_type''})
       \<and> (\<exists>err. fst (update_row PredictionTest vals old e) = Inl err
             \<and> err \<in> {EnumConstraintViolation ''test_type'', EnumConstraintViolation ''prediction_type''})"
proof -
  let ?r = "fst (insert_cols PredictionTest vals e)"
  let ?u = "fst (update_cols PredictionTest vals old e)"
  have ex: "\<exists>c\<in>set PredictionTest. attr c = ''prediction_type''"
    by (simp add: class_defs)
  have ne: "vals \<noteq> []" using assms(1) by auto
  have pr: "cell ?r ''prediction_type'' = v"
    by (rule cell_insert_cols_supplied [OF assms(1) ex])
  have pu: "cell ?u ''prediction_type'' = v"
    by (rule cell_update_cols_supplied [OF assms(1) ex])
  have cr: "check_row PredictionTest ?r \<in>
      {Some (EnumConstraintViolation ''test_type''), Some (EnumConstraintViolation ''prediction_type'')}"
    using pr assms(2) by (simp add: check_row_PredictionTest)
  have cu: "check_row PredictionTest ?u \<in>
      {Some (EnumConstraintViolation ''test_type''), Some (EnumConstraintViolation ''prediction_type'')}"
    using pu assms(2) by (simp add: check_row_PredictionTest)
  have a: "\<exists>err e'. add_row PredictionTest vals (e, tbl) = (Some err, e', tbl)
      \<and> err \<in> {EnumConstraintViolation ''test_type'', EnumConstraintViolation ''prediction_type''}"
    unfolding add_row_def insert_row_unfold using cr by auto
  have b: "\<exists>err. fst (update_row PredictionTest vals old e) = Inl err
      \<and> err \<in> {EnumConstraintViolation ''test_type'', EnumConstraintViolation ''prediction_type''}"
    unfolding update_row_unfold [OF ne] using cu by auto
  show ?thesis using a b by (simp add: PREDICTION_TYPES_def)
qed

theorem test_type_accepts_declared_set_witness:
  "BaseTest \<in> set [BaseTest, PredictionTest]
   \<and> map_of [(''test_type'', StrV ''mock'')] ''test_type'' = Some (StrV ''mock'')
   \<and> StrV ''mock'' \<noteq> Null
   \<and> map_of [(''test_type'', StrV ''mock'')] ''prediction_type'' = None
   \<and> (\<exists>r. fst (insert_row BaseTest [(''test_type'', StrV ''mock'')] env0) = Inr r)
   \<and> map_of [(''test_type'', StrV ''paper'')] ''test_type'' = Some (StrV ''paper'')
   \<and> (\<exists>e'. add_row BaseTest [(''test_type'', StrV ''paper'')] (env0, []) =
          (Some (EnumConstraintViolation ''test_type''), e', []))"
proof -
  have m: "BaseTest \<in> set [BaseTest, PredictionTest]"
    by simp
  have a: "map_of [(''test_type'', StrV ''mock'')] ''test_type'' = Some (StrV ''mock'')"
    and b: "StrV ''mock'' \<noteq> Null"
    and c: "map_of [(''test_type'', StrV ''mock'')] ''prediction_type'' = None"
    by simp_all
  have a': "map_of [(''test_type'', StrV ''paper'')] ''test_type'' = Some (StrV ''paper'')"
    and b': "StrV ''paper'' \<noteq> Null"
    and c': "map_of [(''test_type'', StrV ''paper'')] ''prediction_type'' = None"
    by simp_all
  show ?thesis
    using test_type_accepts_declared_set [OF m a b c, of env0 "[]" "[]"]
      test_type_accepts_declared_set [OF m a' b' c', of env0 "[]" "[]"]
    by simp
qed

theorem prediction_type_always_rejected_witness:
  "map_of [(''prediction_type'', StrV ''lstm'')] ''prediction_type'' = Some (StrV ''lstm'')
   \<and> StrV ''lstm'' \<noteq> Null
   \<and> (\<exists>err e'. add_row PredictionTest [(''prediction_type'', StrV ''lstm'')] (env0, []) =
          (Some err, e', []))"
proof -
  have a: "map_of [(''prediction_type'', StrV ''lstm'')] ''prediction_type'' = Some (StrV ''lstm'')"
    and b: "StrV ''lstm'' \<noteq> Null"
    by simp_all
  show ?thesis
    using prediction_type_always_rejected [OF a b, of env0 "[]" "[]"]
    by auto
qed

end
